theory Spec2Isabelle
  imports Main
begin

section \<open>GoogleSheetsConnector: a shallow embedding of googlesheets.py\<close>

text \<open>
  The class \<^verbatim>\<open>GoogleSheetsConnector\<close> holds a spreadsheet handle (\<^verbatim>\<open>self.__sheet\<close>) and a
  database connection (\<^verbatim>\<open>self.__dbconn\<close>), and logs through the module logger. Its methods
  are modelled as functions on a record of these three, returning the exception raised (if
  any) together with the state the call leaves behind.
\<close>

subsection \<open>Python values, exceptions and log records\<close>

datatype pyval = PNone | PBool bool | PInt int | PStr string | PTuple "pyval list"

datatype error = IOError | DatabaseError | NotFoundError | IndexError | APIError

datatype level = INFO | ERROR

text \<open>A log record keeps the format string and its arguments apart, as \<^verbatim>\<open>logging\<close> does.\<close>

datatype log_record = LogRecord level string "pyval list"

definition logger_info :: "string \<Rightarrow> pyval list \<Rightarrow> log_record list \<Rightarrow> log_record list" where
  "logger_info msg args lg = lg @ [LogRecord INFO msg args]"

definition logger_error :: "string \<Rightarrow> pyval list \<Rightarrow> log_record list \<Rightarrow> log_record list" where
  "logger_error msg args lg = lg @ [LogRecord ERROR msg args]"

subsection \<open>The collaborators' data\<close>

text \<open>
  A worksheet has a title and a grid of cells addressed by (row, column); an absent entry is a
  blank cell. The spreadsheet is the list of its worksheets in listing order. A database is a
  map from table names to the rows of the table; a row is one sheet record, a list of
  (column header, value) pairs.
\<close>

record worksheet =
  title :: string
  cells :: "nat \<times> nat \<rightharpoonup> pyval"

type_synonym sheet_record = "(string \<times> pyval) list"

type_synonym database = "string \<rightharpoonup> sheet_record list"

record state =
  sheet :: "worksheet list"
  dbconn :: database
  logged :: "log_record list"

text \<open>A \<^verbatim>\<open>gspread\<close> cell object, as returned by \<^verbatim>\<open>Worksheet.range\<close>.\<close>

record cell =
  row :: nat
  col :: nat
  val :: pyval

subsection \<open>The collaborators' operations\<close>

text \<open>
  The operations of the spreadsheet client (\<^verbatim>\<open>gspread\<close>), of the data frame and the database
  connection (\<^verbatim>\<open>pandas\<close>, \<^verbatim>\<open>sqlite3\<close>) and of the file system are called by the connector and
  are not part of its source. Each is modelled after the contract that sections 4.1, 6 and 7
  of the specification give it. What a collaborator decides by rules of its own (how a cell
  label or a range name is resolved to coordinates, whether a script executes and what it
  does, which records a worksheet yields, whether an append is accepted) is a parameter of the
  model, so that the properties below hold for every such rule.
\<close>

text \<open>
  Modelled from the spec: \<^verbatim>\<open>open(file_path, 'r').read()\<close>, the file input. The file system maps
  the paths of the readable files to their contents; the read yields the whole contents, or
  IOError when the file cannot be read.
\<close>

definition open_read :: "(string \<rightharpoonup> string) \<Rightarrow> string \<Rightarrow> error + string" where
  "open_read fs file_path = (case fs file_path of None \<Rightarrow> Inl IOError | Some contents \<Rightarrow> Inr contents)"

text \<open>Modelled from the spec: \<^verbatim>\<open>Spreadsheet.worksheets()\<close>, the worksheets in listing order.\<close>

definition worksheets :: "worksheet list \<Rightarrow> worksheet list" where
  "worksheets sh = sh"

text \<open>
  Modelled from the spec: \<^verbatim>\<open>Spreadsheet.worksheet(title)\<close>, get worksheet by title. It yields a
  handle (here the position in the listing) of the first worksheet with that title, and
  NotFoundError when there is none.
\<close>

fun index_of_title :: "string \<Rightarrow> worksheet list \<Rightarrow> nat option" where
  "index_of_title t [] = None"
| "index_of_title t (w # ws) =
     (if title w = t then Some 0 else map_option Suc (index_of_title t ws))"

definition get_worksheet :: "worksheet list \<Rightarrow> string \<Rightarrow> error + nat" where
  "get_worksheet sh t = (case index_of_title t sh of None \<Rightarrow> Inl NotFoundError | Some h \<Rightarrow> Inr h)"

text \<open>
  Modelled from the spec: the value that reading a cell yields; a blank cell reads as the empty
  string.
\<close>

definition cell_at :: "worksheet \<Rightarrow> nat \<times> nat \<Rightarrow> pyval" where
  "cell_at w rc = (case cells w rc of None \<Rightarrow> PStr [] | Some v \<Rightarrow> v)"

text \<open>
  Modelled from the spec: \<^verbatim>\<open>Worksheet.update_acell(label, value)\<close> and \<^verbatim>\<open>Worksheet.acell(label)\<close>,
  write and read a single cell by reference. The parameter \<open>a1_to_rowcol\<close> is the client's
  resolution of a cell label to coordinates, which may reject the label.
\<close>

definition update_acell ::
  "(string \<Rightarrow> error + nat \<times> nat) \<Rightarrow> worksheet \<Rightarrow> string \<Rightarrow> pyval \<Rightarrow> error + worksheet" where
  "update_acell a1_to_rowcol w label v =
     (case a1_to_rowcol label of
        Inl e \<Rightarrow> Inl e
      | Inr rc \<Rightarrow> Inr (w\<lparr>cells := (cells w)(rc \<mapsto> v)\<rparr>))"

definition acell :: "(string \<Rightarrow> error + nat \<times> nat) \<Rightarrow> worksheet \<Rightarrow> string \<Rightarrow> error + pyval" where
  "acell a1_to_rowcol w label =
     (case a1_to_rowcol label of Inl e \<Rightarrow> Inl e | Inr rc \<Rightarrow> Inr (cell_at w rc))"

text \<open>Modelled from the spec: \<^verbatim>\<open>Worksheet.clear()\<close>, after which every cell is blank.\<close>

definition clear :: "worksheet \<Rightarrow> worksheet" where
  "clear w = w\<lparr>cells := Map.empty\<rparr>"

text \<open>
  Modelled from the spec: \<^verbatim>\<open>Worksheet.range(name)\<close>, read a cell range: the cells of the range
  that \<open>name\<close> denotes, in the order of the range, each with its coordinates and its value. The
  parameter \<open>resolve\<close> is the client's resolution of the argument to the coordinates of the
  range, which may reject the argument. \<^verbatim>\<open>Worksheet.update_cells(cell_list)\<close>, write a cell
  range: one request that writes every cell of the list at its coordinates.
\<close>

definition range_cells ::
  "(pyval \<Rightarrow> error + (nat \<times> nat) list) \<Rightarrow> worksheet \<Rightarrow> pyval \<Rightarrow> error + cell list" where
  "range_cells resolve w name =
     (case resolve name of
        Inl e \<Rightarrow> Inl e
      | Inr rcs \<Rightarrow> Inr (map (\<lambda>rc. \<lparr>row = fst rc, col = snd rc, val = cell_at w rc\<rparr>) rcs))"

definition update_cells :: "worksheet \<Rightarrow> cell list \<Rightarrow> worksheet" where
  "update_cells w cell_list =
     w\<lparr>cells := fold (\<lambda>c m. m((row c, col c) \<mapsto> val c)) cell_list (cells w)\<rparr>"

text \<open>
  Modelled from the spec: \<^verbatim>\<open>Spreadsheet.add_worksheet(title, rows, cols)\<close>, add worksheet: a new
  blank worksheet at the end of the listing.
\<close>

definition add_worksheet :: "worksheet list \<Rightarrow> string \<Rightarrow> worksheet list" where
  "add_worksheet sh t = sh @ [\<lparr>title = t, cells = Map.empty\<rparr>]"

text \<open>
  Modelled from the spec: \<^verbatim>\<open>DataFrame.to_sql(name, con, if_exists='append', index=False)\<close>,
  append a table of rows to a named table, create-if-absent, else append. The parameter
  \<open>accepts\<close> says whether the database takes the append; when it does not, the call raises
  DatabaseError and the database is unchanged.
\<close>

definition table_rows :: "database \<Rightarrow> string \<Rightarrow> sheet_record list" where
  "table_rows db name = (case db name of None \<Rightarrow> [] | Some rows \<Rightarrow> rows)"

definition to_sql ::
  "(string \<Rightarrow> sheet_record list \<Rightarrow> database \<Rightarrow> bool) \<Rightarrow> sheet_record list \<Rightarrow> string \<Rightarrow> database
     \<Rightarrow> error + database" where
  "to_sql accepts df name db =
     (if accepts name df db then Inr (db(name \<mapsto> table_rows db name @ df)) else Inl DatabaseError)"

subsection \<open>The connector's methods\<close>

text \<open>
  \<^verbatim>\<open>create_tables\<close>: read the script, then hand it to \<^verbatim>\<open>executescript\<close>. The parameter
  \<open>executescript\<close> is the connection's execution of a script on the database: it yields the
  error raised, if any, and the database the execution leaves.
\<close>

definition create_tables ::
  "(string \<Rightarrow> database \<Rightarrow> error option \<times> database) \<Rightarrow> (string \<rightharpoonup> string) \<Rightarrow> state \<Rightarrow> string
     \<Rightarrow> error option \<times> state" where
  "create_tables executescript fs s file_path =
     (case open_read fs file_path of
        Inl e \<Rightarrow> (Some e, s)
      | Inr ddl_sql \<Rightarrow>
          (case executescript ddl_sql (dbconn s) of (r, db') \<Rightarrow> (r, s\<lparr>dbconn := db'\<rparr>)))"

text \<open>\<^verbatim>\<open>update_cell\<close>: look the worksheet up by title, then write the cell.\<close>

definition update_cell ::
  "(string \<Rightarrow> error + nat \<times> nat) \<Rightarrow> state \<Rightarrow> string \<Rightarrow> string \<Rightarrow> pyval \<Rightarrow> error option \<times> state" where
  "update_cell a1_to_rowcol s worksheet cell new_value =
     (case get_worksheet (sheet s) worksheet of
        Inl e \<Rightarrow> (Some e, s)
      | Inr h \<Rightarrow>
          (case update_acell a1_to_rowcol (sheet s ! h) cell new_value of
             Inl e \<Rightarrow> (Some e, s)
           | Inr w' \<Rightarrow> (None, s\<lparr>sheet := (sheet s)[h := w']\<rparr>)))"

text \<open>
  Modelled from the spec: a read of a single cell by reference. The connector has no method
  that reads; the read goes through the same two client calls as the write,
  \<^verbatim>\<open>sheet.worksheet(worksheet).acell(cell)\<close>.
\<close>

definition read_cell ::
  "(string \<Rightarrow> error + nat \<times> nat) \<Rightarrow> state \<Rightarrow> string \<Rightarrow> string \<Rightarrow> error + pyval" where
  "read_cell a1_to_rowcol s worksheet cell =
     (case get_worksheet (sheet s) worksheet of
        Inl e \<Rightarrow> Inl e
      | Inr h \<Rightarrow> acell a1_to_rowcol (sheet s ! h) cell)"

text \<open>\<^verbatim>\<open>clear_worksheet\<close>: look the worksheet up by title, then clear it.\<close>

definition clear_worksheet :: "state \<Rightarrow> string \<Rightarrow> error option \<times> state" where
  "clear_worksheet s worksheet =
     (case get_worksheet (sheet s) worksheet of
        Inl e \<Rightarrow> (Some e, s)
      | Inr h \<Rightarrow> (None, s\<lparr>sheet := (sheet s)[h := clear (sheet s ! h)]\<rparr>))"

text \<open>
  \<^verbatim>\<open>extract_data\<close>: the loop over the worksheet listing. Each worksheet is fetched again by its
  title; its records make the data frame (\<^verbatim>\<open>len(df.index)\<close> is the number of records), and the
  frame is appended to the table of the same name unless it has no rows. The parameter
  \<open>get_all_records\<close> is the client's reading of all records of a worksheet as rows. An
  exception ends the loop and leaves the state reached so far.
\<close>

fun extract_loop ::
  "(worksheet \<Rightarrow> sheet_record list) \<Rightarrow> (string \<Rightarrow> sheet_record list \<Rightarrow> database \<Rightarrow> bool)
     \<Rightarrow> worksheet list \<Rightarrow> state \<Rightarrow> error option \<times> state" where
  "extract_loop get_all_records accepts [] s = (None, s)"
| "extract_loop get_all_records accepts (w # ws) s =
     (let s1 = s\<lparr>logged := logger_info ''Extracting %s'' [PStr (title w)] (logged s)\<rparr> in
      case get_worksheet (sheet s1) (title w) of
        Inl e \<Rightarrow> (Some e, s1)
      | Inr h \<Rightarrow>
          (let df = get_all_records (sheet s1 ! h);
               s2 = s1\<lparr>logged := logger_info ''%s %s extracted''
                                   [PInt (int (length df)), PStr (title w)] (logged s1)\<rparr>
           in if length df \<noteq> 0
              then (case to_sql accepts df (title w) (dbconn s2) of
                      Inl e \<Rightarrow> (Some e, s2)
                    | Inr db' \<Rightarrow> extract_loop get_all_records accepts ws (s2\<lparr>dbconn := db'\<rparr>))
              else extract_loop get_all_records accepts ws s2))"

definition extract_data ::
  "(worksheet \<Rightarrow> sheet_record list) \<Rightarrow> (string \<Rightarrow> sheet_record list \<Rightarrow> database \<Rightarrow> bool)
     \<Rightarrow> state \<Rightarrow> error option \<times> state" where
  "extract_data get_all_records accepts s =
     (let worksheet_list = worksheets (sheet s);
          s0 = s\<lparr>logged := logger_info ''Extracting mappings from Google sheet.'' [] (logged s)\<rparr>
      in case extract_loop get_all_records accepts worksheet_list s0 of
           (Some e, s') \<Rightarrow> (Some e, s')
         | (None, s') \<Rightarrow>
             (None, s'\<lparr>logged := logger_info
                 ''Mappings were successfully extracted from google sheets.'' [] (logged s')\<rparr>))"

text \<open>
  \<^verbatim>\<open>update_in_range\<close>: the argument handed to \<^verbatim>\<open>Worksheet.range\<close> is the tuple
  \<^verbatim>\<open>('%s:%s', start_cell, end_cell)\<close>, as line 88 writes it. The loop assigns
  \<^verbatim>\<open>cell_list[i].value = val\<close> for the values in order and raises IndexError at the first index
  outside the list.
\<close>

definition range_name :: "string \<Rightarrow> string \<Rightarrow> pyval" where
  "range_name start_cell end_cell = PTuple [PStr ''%s:%s'', PStr start_cell, PStr end_cell]"

fun assign_values :: "cell list \<Rightarrow> nat \<Rightarrow> pyval list \<Rightarrow> error + cell list" where
  "assign_values cell_list i [] = Inr cell_list"
| "assign_values cell_list i (v # vs) =
     (if i < length cell_list
      then assign_values (cell_list[i := (cell_list ! i)\<lparr>val := v\<rparr>]) (Suc i) vs
      else Inl IndexError)"

definition update_in_range ::
  "(pyval \<Rightarrow> error + (nat \<times> nat) list) \<Rightarrow> state \<Rightarrow> string \<Rightarrow> string \<Rightarrow> string \<Rightarrow> pyval list
     \<Rightarrow> error option \<times> state" where
  "update_in_range resolve s worksheet start_cell end_cell cell_values =
     (case get_worksheet (sheet s) worksheet of
        Inl e \<Rightarrow> (Some e, s)
      | Inr h \<Rightarrow>
          (case range_cells resolve (sheet s ! h) (range_name start_cell end_cell) of
             Inl e \<Rightarrow> (Some e, s)
           | Inr fetched \<Rightarrow>
               (case assign_values fetched 0 cell_values of
                  Inl e \<Rightarrow> (Some e, s)
                | Inr cell_list \<Rightarrow>
                    (case get_worksheet (sheet s) worksheet of
                       Inl e \<Rightarrow> (Some e, s)
                     | Inr h' \<Rightarrow>
                         (None, s\<lparr>sheet := (sheet s)[h' := update_cells (sheet s ! h') cell_list]\<rparr>)))))"

text \<open>
  \<^verbatim>\<open>create_worksheet\<close>: the membership test on the listed titles, an error record when the title
  is there, the new worksheet otherwise.
\<close>

definition create_worksheet :: "state \<Rightarrow> string \<Rightarrow> error option \<times> state" where
  "create_worksheet s t =
     (if t \<in> set (map title (worksheets (sheet s)))
      then (None, s\<lparr>logged := logger_error ''Worksheet '%s' already exists'' [PStr t] (logged s)\<rparr>)
      else (let s1 = s\<lparr>logged := logger_info ''Creating Worksheet'' [] (logged s)\<rparr>;
                s2 = s1\<lparr>sheet := add_worksheet (sheet s1) t\<rparr>
            in (None, s2\<lparr>logged := logger_info ''Worksheet created'' [] (logged s2)\<rparr>)))"

subsection \<open>Names for the intermediate states of the extraction loop\<close>

definition log_extracting :: "worksheet \<Rightarrow> state \<Rightarrow> state" where
  "log_extracting w s = s\<lparr>logged := logger_info ''Extracting %s'' [PStr (title w)] (logged s)\<rparr>"

definition log_extracted :: "worksheet \<Rightarrow> nat \<Rightarrow> state \<Rightarrow> state" where
  "log_extracted w n s =
     s\<lparr>logged := logger_info ''%s %s extracted'' [PInt (int n), PStr (title w)] (logged s)\<rparr>"

definition log_start :: "state \<Rightarrow> state" where
  "log_start s = s\<lparr>logged := logger_info ''Extracting mappings from Google sheet.'' [] (logged s)\<rparr>"

subsection \<open>A small instance: two worksheets, a script file, a toy database engine\<close>

text \<open>
  The spreadsheet of the specification's scenario: worksheet Employees with three records and
  worksheet Departments with none.
\<close>

definition demo_employees :: worksheet where
  "demo_employees = \<lparr>title = ''Employees'', cells = Map.empty\<rparr>"

definition demo_departments :: worksheet where
  "demo_departments = \<lparr>title = ''Departments'', cells = Map.empty\<rparr>"

definition demo_rows :: "sheet_record list" where
  "demo_rows = [[(''name'', PStr ''Ann'')], [(''name'', PStr ''Bob'')], [(''name'', PStr ''Cy'')]]"

definition demo_records :: "worksheet \<Rightarrow> sheet_record list" where
  "demo_records w = (if title w = ''Employees'' then demo_rows else [])"

definition accept_all :: "string \<Rightarrow> sheet_record list \<Rightarrow> database \<Rightarrow> bool" where
  "accept_all name df db = True"

definition demo_state :: state where
  "demo_state = \<lparr>sheet = [demo_employees, demo_departments], dbconn = Map.empty, logged = []\<rparr>"

definition demo_fs :: "string \<rightharpoonup> string" where
  "demo_fs = [''schema.sql'' \<mapsto> ''CREATE TABLE Employees (name);'', ''broken.sql'' \<mapsto> ''CREATE TABEL'']"

definition demo_executescript :: "string \<Rightarrow> database \<Rightarrow> error option \<times> database" where
  "demo_executescript sql db =
     (if sql = ''CREATE TABLE Employees (name);'' then (None, db(''Employees'' \<mapsto> []))
      else (Some DatabaseError, db))"

definition demo_loaded :: state where
  "demo_loaded = demo_state\<lparr>dbconn := [''Employees'' \<mapsto> [[(''name'', PStr ''Zed'')]]]\<rparr>"

text \<open>
  Stand-ins for the client's address resolution: \<open>demo_a1\<close> knows the labels A1 and B1,
  \<open>demo_a1_range\<close> resolves the range name A1:B1 and rejects every other name (any name that is
  not a string among them), \<open>demo_any_range\<close> answers every request with the cells A1 and B1.
\<close>

definition demo_a1 :: "string \<Rightarrow> error + nat \<times> nat" where
  "demo_a1 label =
     (if label = ''A1'' then Inr (1, 1) else if label = ''B1'' then Inr (1, 2) else Inl APIError)"

definition demo_a1_range :: "pyval \<Rightarrow> error + (nat \<times> nat) list" where
  "demo_a1_range name =
     (case name of
        PStr a1 \<Rightarrow> (if a1 = ''A1:B1'' then Inr [(1, 1), (1, 2)] else Inl APIError)
      | _ \<Rightarrow> Inl APIError)"

definition demo_any_range :: "pyval \<Rightarrow> error + (nat \<times> nat) list" where
  "demo_any_range name = Inr [(1, 1), (1, 2)]"

definition demo_filled :: state where
  "demo_filled =
     \<lparr>sheet = [\<lparr>title = ''Employees'', cells = [(1, 1) \<mapsto> PStr ''a'', (1, 2) \<mapsto> PStr ''b'']\<rparr>,
               demo_departments],
      dbconn = Map.empty, logged = []\<rparr>"

section \<open>Properties\<close>

subsection \<open>Looking a worksheet up by title\<close>

lemma index_of_title_None: "index_of_title t ws = None \<longleftrightarrow> t \<notin> set (map title ws)"
  by (induction ws) auto

lemma index_of_title_Some:
  "index_of_title t ws = Some i \<Longrightarrow> i < length ws \<and> title (ws ! i) = t"
  by (induction ws arbitrary: i) (auto split: if_splits)

lemma index_of_title_titles:
  "map title ws = map title ws' \<Longrightarrow> index_of_title t ws = index_of_title t ws'"
proof (induction ws arbitrary: ws')
  case Nil
  then show ?case by simp
next
  case (Cons w ws)
  then obtain w' ws2 where "ws' = w' # ws2" by (cases ws') auto
  with Cons show ?case by auto
qed

lemma index_of_title_distinct:
  "distinct (map title ws) \<Longrightarrow> w \<in> set ws \<Longrightarrow> \<exists>i. index_of_title (title w) ws = Some i \<and> ws ! i = w"
  by (induction ws) (auto simp: rev_image_eqI)

lemma get_worksheet_missing:
  "t \<notin> set (map title sh) \<Longrightarrow> get_worksheet sh t = Inl NotFoundError"
  using index_of_title_None [of t sh] by (simp add: get_worksheet_def)

lemma get_worksheet_present:
  "t \<in> set (map title sh) \<Longrightarrow> \<exists>h. get_worksheet sh t = Inr h \<and> h < length sh \<and> title (sh ! h) = t"
proof -
  assume "t \<in> set (map title sh)"
  then obtain h where h: "index_of_title t sh = Some h"
    using index_of_title_None [of t sh] by (cases "index_of_title t sh") auto
  then show ?thesis using index_of_title_Some [OF h] by (simp add: get_worksheet_def)
qed

lemma get_worksheet_titles:
  "map title sh = map title sh' \<Longrightarrow> get_worksheet sh t = get_worksheet sh' t"
  by (simp add: get_worksheet_def index_of_title_titles [of sh sh'])

subsection \<open>The extraction loop\<close>

lemma extract_loop_Cons:
  "extract_loop g a (w # ws) s =
     (case get_worksheet (sheet s) (title w) of
        Inl e \<Rightarrow> (Some e, log_extracting w s)
      | Inr h \<Rightarrow>
          (if g (sheet s ! h) = []
           then extract_loop g a ws (log_extracted w 0 (log_extracting w s))
           else if a (title w) (g (sheet s ! h)) (dbconn s)
           then extract_loop g a ws
                  ((log_extracted w (length (g (sheet s ! h))) (log_extracting w s))
                     \<lparr>dbconn := (dbconn s)(title w \<mapsto> table_rows (dbconn s) (title w) @ g (sheet s ! h))\<rparr>)
           else (Some DatabaseError, log_extracted w (length (g (sheet s ! h))) (log_extracting w s))))"
  by (simp add: Let_def to_sql_def log_extracting_def log_extracted_def split: sum.splits)

lemma log_steps_simps [simp]:
  "sheet (log_extracting w s) = sheet s" "dbconn (log_extracting w s) = dbconn s"
  "sheet (log_extracted w n s) = sheet s" "dbconn (log_extracted w n s) = dbconn s"
  by (simp_all add: log_extracting_def log_extracted_def)

lemma extract_loop_sheet:
  "sheet (snd (extract_loop g a ws s)) = sheet s"
proof (induction ws arbitrary: s)
  case Nil
  show ?case by simp
next
  case (Cons w ws)
  show ?case
    unfolding extract_loop_Cons
    by (simp add: Cons.IH split: sum.splits)
qed

lemma extract_loop_frame:
  "\<forall>h. get_worksheet (sheet s) t = Inr h \<longrightarrow> g (sheet s ! h) = [] \<Longrightarrow>
   dbconn (snd (extract_loop g a ws s)) t = dbconn s t"
proof (induction ws arbitrary: s)
  case Nil
  show ?case by simp
next
  case (Cons w ws)
  show ?case
    unfolding extract_loop_Cons
    using Cons.prems
    by (auto simp: Cons.IH split: sum.splits)
qed

lemma extract_loop_untouched:
  "t \<notin> set (map title ws) \<Longrightarrow> dbconn (snd (extract_loop g a ws s)) t = dbconn s t"
proof (induction ws arbitrary: s)
  case Nil
  show ?case by simp
next
  case (Cons w ws)
  from Cons.prems have "t \<noteq> title w" "t \<notin> set (map title ws)" by auto
  then show ?case
    unfolding extract_loop_Cons
    by (simp add: Cons.IH split: sum.splits)
qed

lemma extract_loop_append_only:
  "dbconn s t = Some rows \<Longrightarrow> \<exists>extra. dbconn (snd (extract_loop g a ws s)) t = Some (rows @ extra)"
proof (induction ws arbitrary: s rows)
  case Nil
  then show ?case by simp
next
  case (Cons w ws)
  let ?step = "\<lambda>s'. \<exists>extra. dbconn (snd (extract_loop g a ws s')) t = Some (rows @ extra)"
  have same: "?step s'" if "dbconn s' t = Some rows" for s'
    using Cons.IH [OF that] .
  have grown: "?step s'" if "dbconn s' t = Some (rows @ more)" for s' more
  proof -
    from Cons.IH [OF that] obtain extra
      where "dbconn (snd (extract_loop g a ws s')) t = Some ((rows @ more) @ extra)" ..
    then show ?thesis by simp
  qed
  show ?case
  proof (cases "get_worksheet (sheet s) (title w)")
    case (Inl e)
    then show ?thesis unfolding extract_loop_Cons using Cons.prems by simp
  next
    case (Inr h)
    show ?thesis
    proof (cases "g (sheet s ! h) = []")
      case True
      then show ?thesis unfolding extract_loop_Cons using Inr Cons.prems by (simp add: same)
    next
      case False
      show ?thesis
      proof (cases "a (title w) (g (sheet s ! h)) (dbconn s)")
        case rejected: False
        then show ?thesis unfolding extract_loop_Cons using Inr False Cons.prems by simp
      next
        case True
        let ?s3 = "(log_extracted w (length (g (sheet s ! h))) (log_extracting w s))
                     \<lparr>dbconn := (dbconn s)(title w \<mapsto> table_rows (dbconn s) (title w) @ g (sheet s ! h))\<rparr>"
        have "?step ?s3"
        proof (cases "t = title w")
          case True
          with Cons.prems have "dbconn ?s3 t = Some (rows @ g (sheet s ! h))"
            by (simp add: table_rows_def)
          then show ?thesis by (rule grown)
        next
          case False
          with Cons.prems have "dbconn ?s3 t = Some rows" by simp
          then show ?thesis by (rule same)
        qed
        with True False Inr show ?thesis unfolding extract_loop_Cons by simp
      qed
    qed
  qed
qed

lemma get_worksheet_distinct:
  "distinct (map title sh) \<Longrightarrow> w \<in> set sh \<Longrightarrow> \<exists>h. get_worksheet sh (title w) = Inr h \<and> sh ! h = w"
  using index_of_title_distinct [of sh w] by (auto simp: get_worksheet_def)

lemma extract_loop_appends:
  "distinct (map title (sheet s)) \<Longrightarrow> set ws \<subseteq> set (sheet s) \<Longrightarrow> distinct (map title ws) \<Longrightarrow>
   w \<in> set ws \<Longrightarrow> g w \<noteq> [] \<Longrightarrow> fst (extract_loop g a ws s) = None \<Longrightarrow>
   dbconn (snd (extract_loop g a ws s)) (title w) = Some (table_rows (dbconn s) (title w) @ g w)"
proof (induction ws arbitrary: s)
  case Nil
  then show ?case by simp
next
  case (Cons x ws)
  from Cons.prems have "x \<in> set (sheet s)" by simp
  with Cons.prems(1) obtain h where h: "get_worksheet (sheet s) (title x) = Inr h" "sheet s ! h = x"
    using get_worksheet_distinct by blast
  let ?s2 = "log_extracted x (length (g x)) (log_extracting x s)"
  let ?s3 = "?s2\<lparr>dbconn := (dbconn s)(title x \<mapsto> table_rows (dbconn s) (title x) @ g x)\<rparr>"
  show ?case
  proof (cases "w = x")
    case True
    with Cons.prems have nonempty: "g x \<noteq> []" by simp
    from Cons.prems(6) h nonempty have accepted: "a (title x) (g x) (dbconn s)"
      unfolding extract_loop_Cons by (simp split: if_splits)
    from Cons.prems(3) have "title x \<notin> set (map title ws)" by simp
    then have "dbconn (snd (extract_loop g a ws ?s3)) (title x) = dbconn ?s3 (title x)"
      by (rule extract_loop_untouched)
    with h nonempty accepted True show ?thesis
      unfolding extract_loop_Cons by simp
  next
    case False
    with Cons.prems have w: "w \<in> set ws" by simp
    with Cons.prems(3) have neq: "title x \<noteq> title w" by auto
    from Cons.prems have sub: "set ws \<subseteq> set (sheet s)" and dist: "distinct (map title ws)" by simp_all
    show ?thesis
    proof (cases "g x = []")
      case True
      let ?s' = "log_extracted x 0 (log_extracting x s)"
      from Cons.prems(6) h True have "fst (extract_loop g a ws ?s') = None"
        unfolding extract_loop_Cons by simp
      with Cons.IH [of ?s'] Cons.prems(1,5) sub dist w
      have "dbconn (snd (extract_loop g a ws ?s')) (title w) = Some (table_rows (dbconn s) (title w) @ g w)"
        by (simp add: table_rows_def)
      with h True show ?thesis unfolding extract_loop_Cons by simp
    next
      case False
      from Cons.prems(6) h False have accepted: "a (title x) (g x) (dbconn s)"
        unfolding extract_loop_Cons by (simp split: if_splits)
      with Cons.prems(6) h False have "fst (extract_loop g a ws ?s3) = None"
        unfolding extract_loop_Cons by simp
      with Cons.IH [of ?s3] Cons.prems(1,5) sub dist w neq
      have "dbconn (snd (extract_loop g a ws ?s3)) (title w) = Some (table_rows (dbconn s) (title w) @ g w)"
        by (simp add: table_rows_def)
      with h False accepted show ?thesis unfolding extract_loop_Cons by simp
    qed
  qed
qed

lemma extract_loop_completes:
  "\<forall>name df db. a name df db \<Longrightarrow> set (map title ws) \<subseteq> set (map title (sheet s)) \<Longrightarrow>
   fst (extract_loop g a ws s) = None"
proof (induction ws arbitrary: s)
  case Nil
  show ?case by simp
next
  case (Cons x ws)
  from Cons.prems(2) have "title x \<in> set (map title (sheet s))" by simp
  then obtain h where h: "get_worksheet (sheet s) (title x) = Inr h"
    using get_worksheet_present by blast
  from Cons.prems(2) have sub: "set (map title ws) \<subseteq> set (map title (sheet s))" by simp
  have rest: "fst (extract_loop g a ws s') = None" if "sheet s' = sheet s" for s'
    using Cons.IH [OF Cons.prems(1), of s'] sub that by simp
  from Cons.prems(1) have "a (title x) (g (sheet s ! h)) (dbconn s)" by simp
  with h show ?case
    unfolding extract_loop_Cons by (simp add: rest)
qed

lemma extract_loop_logged_mono:
  "set (logged s) \<subseteq> set (logged (snd (extract_loop g a ws s)))"
proof (induction ws arbitrary: s)
  case Nil
  show ?case by simp
next
  case (Cons x ws)
  have step: "set (logged s) \<subseteq> set (logged (snd (extract_loop g a ws s')))"
    if "set (logged s) \<subseteq> set (logged s')" for s'
    using that Cons.IH [of s'] by blast
  show ?case
    unfolding extract_loop_Cons
    by (auto simp: log_extracting_def log_extracted_def logger_info_def
        split: sum.splits intro!: step [THEN subsetD])
qed

lemma extract_loop_logs_skip:
  "w \<in> set ws \<Longrightarrow> \<forall>h. get_worksheet (sheet s) (title w) = Inr h \<longrightarrow> g (sheet s ! h) = [] \<Longrightarrow>
   fst (extract_loop g a ws s) = None \<Longrightarrow>
   LogRecord INFO ''%s %s extracted'' [PInt 0, PStr (title w)] \<in> set (logged (snd (extract_loop g a ws s)))"
proof (induction ws arbitrary: s)
  case Nil
  then show ?case by simp
next
  case (Cons x ws)
  from Cons.prems(3) obtain h where h: "get_worksheet (sheet s) (title x) = Inr h"
    unfolding extract_loop_Cons by (cases "get_worksheet (sheet s) (title x)") auto
  let ?s2 = "log_extracted x (length (g (sheet s ! h))) (log_extracting x s)"
  let ?s3 = "?s2\<lparr>dbconn := (dbconn s)(title x \<mapsto> table_rows (dbconn s) (title x) @ g (sheet s ! h))\<rparr>"
  let ?next = "if g (sheet s ! h) = [] then log_extracted x 0 (log_extracting x s) else ?s3"
  from Cons.prems(3) h have run: "extract_loop g a (x # ws) s = extract_loop g a ws ?next"
    unfolding extract_loop_Cons by (simp split: if_splits)
  show ?case
  proof (cases "w = x")
    case True
    with Cons.prems(2) h have "g (sheet s ! h) = []" by simp
    then have "LogRecord INFO ''%s %s extracted'' [PInt 0, PStr (title w)] \<in> set (logged ?next)"
      using True by (simp add: log_extracted_def logger_info_def)
    with extract_loop_logged_mono [of ?next g a ws] run show ?thesis by auto
  next
    case False
    with Cons.prems(1) have "w \<in> set ws" by simp
    moreover from Cons.prems(2) have "\<forall>h. get_worksheet (sheet ?next) (title w) = Inr h \<longrightarrow> g (sheet ?next ! h) = []"
      by simp
    moreover from Cons.prems(3) run have "fst (extract_loop g a ws ?next) = None" by simp
    ultimately show ?thesis using Cons.IH [of ?next] run by simp
  qed
qed

lemma log_start_simps [simp]:
  "sheet (log_start s) = sheet s" "dbconn (log_start s) = dbconn s"
  by (simp_all add: log_start_def)

lemma extract_data_fst:
  "fst (extract_data g a s) = fst (extract_loop g a (sheet s) (log_start s))"
  by (simp add: extract_data_def worksheets_def log_start_def Let_def split: prod.splits option.splits)

lemma extract_data_dbconn:
  "dbconn (snd (extract_data g a s)) = dbconn (snd (extract_loop g a (sheet s) (log_start s)))"
  by (simp add: extract_data_def worksheets_def log_start_def Let_def split: prod.splits option.splits)

lemma extract_data_sheet:
  "sheet (snd (extract_data g a s)) = sheet s"
proof -
  have "sheet (snd (extract_data g a s)) = sheet (snd (extract_loop g a (sheet s) (log_start s)))"
    by (simp add: extract_data_def worksheets_def log_start_def Let_def split: prod.splits option.splits)
  then show ?thesis by (simp add: extract_loop_sheet)
qed

lemma extract_data_logged:
  "set (logged (snd (extract_loop g a (sheet s) (log_start s)))) \<subseteq> set (logged (snd (extract_data g a s)))"
  by (auto simp: extract_data_def worksheets_def log_start_def Let_def logger_info_def
      split: prod.splits option.splits)

lemma extract_data_appends_once:
  assumes "distinct (map title (sheet s))" and "w \<in> set (sheet s)" and "g w \<noteq> []"
    and "fst (extract_data g a s) = None"
  shows "dbconn (snd (extract_data g a s)) (title w) = Some (table_rows (dbconn s) (title w) @ g w)"
proof -
  from assms(4) have "fst (extract_loop g a (sheet s) (log_start s)) = None"
    by (simp add: extract_data_fst)
  with assms(1-3)
  have "dbconn (snd (extract_loop g a (sheet s) (log_start s))) (title w)
          = Some (table_rows (dbconn (log_start s)) (title w) @ g w)"
    by (intro extract_loop_appends) simp_all
  then show ?thesis by (simp add: extract_data_dbconn)
qed

lemma extract_data_completes:
  "\<forall>name df db. a name df db \<Longrightarrow> fst (extract_data g a s) = None"
  by (simp add: extract_data_fst extract_loop_completes)

subsection \<open>The assignment loop of \<open>update_in_range\<close>\<close>

lemma assign_values_overflow:
  "i \<le> length cl \<Longrightarrow> length cl < i + length vs \<Longrightarrow> assign_values cl i vs = Inl IndexError"
proof (induction vs arbitrary: cl i)
  case Nil
  then show ?case by simp
next
  case (Cons v vs)
  show ?case
  proof (cases "i < length cl")
    case True
    with Cons.prems Cons.IH [of "Suc i" "cl[i := (cl ! i)\<lparr>val := v\<rparr>]"] show ?thesis by simp
  next
    case False
    then show ?thesis by simp
  qed
qed

lemma assign_values_fits:
  "i + length vs \<le> length cl \<Longrightarrow>
   \<exists>cl'. assign_values cl i vs = Inr cl' \<and> length cl' = length cl \<and>
     (\<forall>j<length cl. cl' ! j =
        (if i \<le> j \<and> j < i + length vs then (cl ! j)\<lparr>val := vs ! (j - i)\<rparr> else cl ! j))"
proof (induction vs arbitrary: cl i)
  case Nil
  then show ?case by auto
next
  case (Cons v vs)
  let ?cl1 = "cl[i := (cl ! i)\<lparr>val := v\<rparr>]"
  from Cons.prems have i: "i < length cl" and fits: "Suc i + length vs \<le> length ?cl1" by simp_all
  from Cons.IH [OF fits] obtain cl' where cl':
    "assign_values ?cl1 (Suc i) vs = Inr cl'" "length cl' = length ?cl1"
    "\<forall>j<length ?cl1. cl' ! j =
        (if Suc i \<le> j \<and> j < Suc i + length vs then (?cl1 ! j)\<lparr>val := vs ! (j - Suc i)\<rparr> else ?cl1 ! j)"
    by blast
  have "cl' ! j = (if i \<le> j \<and> j < i + length (v # vs) then (cl ! j)\<lparr>val := (v # vs) ! (j - i)\<rparr> else cl ! j)"
    if j: "j < length cl" for j
  proof (cases "j = i")
    case True
    with cl'(3) i show ?thesis by simp
  next
    case False
    with cl'(3) j show ?thesis by (auto simp: nth_Cons')
  qed
  with cl'(1,2) i show ?case by simp
qed

lemma update_in_range_rejected_name:
  "get_worksheet (sheet s) t = Inr h \<Longrightarrow> resolve (range_name a b) = Inl e \<Longrightarrow>
   update_in_range resolve s t a b vs = (Some e, s)"
  by (simp add: update_in_range_def range_cells_def)

lemmas demo_defs = demo_employees_def demo_departments_def demo_rows_def demo_records_def
  accept_all_def demo_state_def demo_loaded_def demo_fs_def demo_executescript_def

lemmas run_defs = extract_data_def worksheets_def get_worksheet_def to_sql_def table_rows_def
  logger_info_def logger_error_def Let_def

section \<open>The claims\<close>

text \<open>
  C1: a worksheet with zero data rows is skipped by \<open>extract_data\<close>. The table named after it
  is neither created nor appended to (its entry in the database is what it was), whatever
  happens to the other worksheets; and when the call completes, the log holds the record that
  zero rows were extracted from that worksheet. Worksheet titles are unique in the
  spreadsheet.
\<close>

theorem extract_data_skips_empty:
  assumes "distinct (map title (sheet s))" and "w \<in> set (sheet s)" and "g w = []"
  shows "dbconn (snd (extract_data g a s)) (title w) = dbconn s (title w) \<and>
         (fst (extract_data g a s) = None \<longrightarrow>
            LogRecord INFO ''%s %s extracted'' [PInt 0, PStr (title w)]
              \<in> set (logged (snd (extract_data g a s))))"
proof -
  from assms obtain h where h: "get_worksheet (sheet s) (title w) = Inr h" "sheet s ! h = w"
    using get_worksheet_distinct by blast
  with assms(3) have empty:
    "\<forall>h. get_worksheet (sheet (log_start s)) (title w) = Inr h \<longrightarrow> g (sheet (log_start s) ! h) = []"
    by simp
  have "dbconn (snd (extract_loop g a (sheet s) (log_start s))) (title w) = dbconn (log_start s) (title w)"
    using empty by (rule extract_loop_frame)
  then have unchanged: "dbconn (snd (extract_data g a s)) (title w) = dbconn s (title w)"
    by (simp add: extract_data_dbconn)
  have "LogRecord INFO ''%s %s extracted'' [PInt 0, PStr (title w)]
          \<in> set (logged (snd (extract_data g a s)))"
    if "fst (extract_data g a s) = None"
  proof -
    from that have "fst (extract_loop g a (sheet s) (log_start s)) = None"
      by (simp add: extract_data_fst)
    with assms(2) empty
    have "LogRecord INFO ''%s %s extracted'' [PInt 0, PStr (title w)]
            \<in> set (logged (snd (extract_loop g a (sheet s) (log_start s))))"
      by (rule extract_loop_logs_skip)
    with extract_data_logged show ?thesis by blast
  qed
  with unchanged show ?thesis by blast
qed

theorem extract_data_skips_empty_witness:
  "distinct (map title (sheet demo_state)) \<and> demo_departments \<in> set (sheet demo_state) \<and>
   demo_records demo_departments = [] \<and>
   dbconn (snd (extract_data demo_records accept_all demo_state)) ''Departments'' = None \<and>
   fst (extract_data demo_records accept_all demo_state) = None \<and>
   LogRecord INFO ''%s %s extracted'' [PInt 0, PStr ''Departments'']
     \<in> set (logged (snd (extract_data demo_records accept_all demo_state)))"
proof -
  have hyps: "distinct (map title (sheet demo_state))" "demo_departments \<in> set (sheet demo_state)"
    "demo_records demo_departments = []"
    by (simp_all add: demo_defs)
  have completes: "fst (extract_data demo_records accept_all demo_state) = None"
    by (simp add: demo_defs run_defs)
  from extract_data_skips_empty [where s = demo_state and w = demo_departments and g = demo_records
      and a = accept_all] hyps completes show ?thesis
    by (simp add: demo_departments_def demo_state_def)
qed

text \<open>
  C2: for a worksheet with N \<ge> 1 records, a call of \<open>extract_data\<close> that completes leaves the
  table named after the worksheet with its former rows followed by the N records (a table that
  did not exist is created with exactly these rows), and a second completed call appends the
  same N records once more: the row count grows by N with each call.
\<close>

theorem extract_data_appends:
  assumes "distinct (map title (sheet s))" and "w \<in> set (sheet s)" and "g w \<noteq> []"
    and "extract_data g a s = (None, s1)" and "extract_data g a s1 = (None, s2)"
  shows "dbconn s1 (title w) = Some (table_rows (dbconn s) (title w) @ g w) \<and>
         dbconn s2 (title w) = Some (table_rows (dbconn s1) (title w) @ g w) \<and>
         length (table_rows (dbconn s1) (title w)) = length (table_rows (dbconn s) (title w)) + length (g w) \<and>
         length (table_rows (dbconn s2) (title w)) = length (table_rows (dbconn s1) (title w)) + length (g w)"
proof -
  from assms(4) have s1: "fst (extract_data g a s) = None" "snd (extract_data g a s) = s1" by simp_all
  from assms(5) have s2: "fst (extract_data g a s1) = None" "snd (extract_data g a s1) = s2" by simp_all
  from s1(2) have sheet1: "sheet s1 = sheet s" using extract_data_sheet [of g a s] by simp
  have first: "dbconn s1 (title w) = Some (table_rows (dbconn s) (title w) @ g w)"
    using extract_data_appends_once [OF assms(1-3) s1(1)] s1(2) by simp
  have second: "dbconn s2 (title w) = Some (table_rows (dbconn s1) (title w) @ g w)"
    using extract_data_appends_once [of s1 w g a] assms(1-3) sheet1 s2 by simp
  from first second show ?thesis by (simp add: table_rows_def)
qed

theorem extract_data_appends_witness:
  "distinct (map title (sheet demo_state)) \<and> demo_employees \<in> set (sheet demo_state) \<and>
   demo_records demo_employees \<noteq> [] \<and>
   fst (extract_data demo_records accept_all demo_state) = None \<and>
   fst (extract_data demo_records accept_all
          (snd (extract_data demo_records accept_all demo_state))) = None \<and>
   dbconn demo_state ''Employees'' = None \<and>
   dbconn (snd (extract_data demo_records accept_all demo_state)) ''Employees'' = Some demo_rows \<and>
   dbconn (snd (extract_data demo_records accept_all
                  (snd (extract_data demo_records accept_all demo_state)))) ''Employees''
     = Some (demo_rows @ demo_rows) \<and>
   length demo_rows = 3"
proof -
  let ?s1 = "snd (extract_data demo_records accept_all demo_state)"
  let ?s2 = "snd (extract_data demo_records accept_all ?s1)"
  have hyps: "distinct (map title (sheet demo_state))" "demo_employees \<in> set (sheet demo_state)"
    "demo_records demo_employees \<noteq> []"
    by (simp_all add: demo_defs)
  have all: "\<forall>name df db. accept_all name df db" by (simp add: accept_all_def)
  have c1: "fst (extract_data demo_records accept_all demo_state) = None"
    using all by (rule extract_data_completes)
  have c2: "fst (extract_data demo_records accept_all ?s1) = None"
    using all by (rule extract_data_completes)
  have run1: "extract_data demo_records accept_all demo_state = (None, ?s1)"
    using c1 by (simp add: prod_eq_iff)
  have run2: "extract_data demo_records accept_all ?s1 = (None, ?s2)"
    using c2 by (simp add: prod_eq_iff)
  have before: "table_rows (dbconn demo_state) (title demo_employees) = []"
    "title demo_employees = ''Employees''" "dbconn demo_state ''Employees'' = None"
    "demo_records demo_employees = demo_rows" "length demo_rows = 3"
    by (simp_all add: demo_defs table_rows_def)
  from extract_data_appends [OF hyps run1 run2] hyps c1 c2 before show ?thesis
    by (simp add: table_rows_def)
qed

text \<open>
  C3: when a worksheet with the given title is already listed, \<open>create_worksheet\<close> raises
  nothing, leaves the spreadsheet and the database as they were, and adds one error record to
  the log.
\<close>

theorem create_worksheet_existing:
  "t \<in> set (map title (sheet s)) \<Longrightarrow>
     create_worksheet s t =
       (None, s\<lparr>logged := logged s @ [LogRecord ERROR ''Worksheet '%s' already exists'' [PStr t]]\<rparr>) \<and>
     sheet (snd (create_worksheet s t)) = sheet s \<and>
     dbconn (snd (create_worksheet s t)) = dbconn s"
  by (simp add: create_worksheet_def worksheets_def logger_error_def)

theorem create_worksheet_existing_witness:
  "''Employees'' \<in> set (map title (sheet demo_state)) \<and>
   create_worksheet demo_state ''Employees'' =
     (None, demo_state\<lparr>logged := [LogRecord ERROR ''Worksheet '%s' already exists'' [PStr ''Employees'']]\<rparr>) \<and>
   sheet (snd (create_worksheet demo_state ''Employees'')) = [demo_employees, demo_departments]"
proof -
  have listed: "''Employees'' \<in> set (map title (sheet demo_state))"
    by (simp add: demo_defs)
  from create_worksheet_existing [OF listed] listed show ?thesis
    by (simp add: demo_state_def)
qed

text \<open>
  C4: \<open>update_in_range\<close> does not ask for the range between the two corner cells. What it
  hands to \<open>Worksheet.range\<close> is the three-element tuple of the format string and the two cell
  references, not the range name formatted from them. A client that resolves range names
  written in A1 notation resolves A1:B1 and rejects the tuple, so for the references A1, B1
  and two values the call fails and writes nothing.
\<close>

theorem update_in_range_passes_tuple:
  "range_name ''A1'' ''B1'' = PTuple [PStr ''%s:%s'', PStr ''A1'', PStr ''B1''] \<and>
   range_name ''A1'' ''B1'' \<noteq> PStr ''A1:B1'' \<and>
   demo_a1_range (PStr ''A1:B1'') = Inr [(1, 1), (1, 2)] \<and>
   update_in_range demo_a1_range demo_filled ''Employees'' ''A1'' ''B1'' [PStr ''x'', PStr ''y'']
     = (Some APIError, demo_filled)"
  by (simp add: range_name_def demo_a1_range_def update_in_range_def range_cells_def
      get_worksheet_def demo_filled_def)

text \<open>
  C5: for a listed worksheet title and a cell reference the client resolves, \<open>update_cell\<close>
  raises nothing, and reading the same cell of the same worksheet afterwards yields the value
  written.
\<close>

theorem update_cell_then_read:
  assumes "t \<in> set (map title (sheet s))" and "a1 c = Inr rc"
  shows "fst (update_cell a1 s t c v) = None \<and>
         read_cell a1 (snd (update_cell a1 s t c v)) t c = Inr v"
proof -
  from assms(1) obtain h where h: "get_worksheet (sheet s) t = Inr h" "h < length (sheet s)"
    using get_worksheet_present by blast
  let ?w' = "(sheet s ! h)\<lparr>cells := (cells (sheet s ! h))(rc \<mapsto> v)\<rparr>"
  from h assms(2) have run: "update_cell a1 s t c v = (None, s\<lparr>sheet := (sheet s)[h := ?w']\<rparr>)"
    by (simp add: update_cell_def update_acell_def)
  have "map title ((sheet s)[h := ?w']) = map title (sheet s)"
    using h(2) by (simp add: map_update list_update_same_conv)
  then have "get_worksheet ((sheet s)[h := ?w']) t = Inr h"
    using h(1) get_worksheet_titles by metis
  with run h(2) assms(2) show ?thesis
    by (simp add: read_cell_def acell_def cell_at_def)
qed

theorem update_cell_then_read_witness:
  "''Employees'' \<in> set (map title (sheet demo_state)) \<and> demo_a1 ''B1'' = Inr (1, 2) \<and>
   fst (update_cell demo_a1 demo_state ''Employees'' ''B1'' (PInt 42)) = None \<and>
   read_cell demo_a1 (snd (update_cell demo_a1 demo_state ''Employees'' ''B1'' (PInt 42))) ''Employees'' ''B1''
     = Inr (PInt 42)"
proof -
  have listed: "''Employees'' \<in> set (map title (sheet demo_state))"
    by (simp add: demo_state_def demo_employees_def)
  have label: "demo_a1 ''B1'' = Inr (1, 2)"
    by (simp add: demo_a1_def)
  from update_cell_then_read [where s = demo_state and t = "''Employees''" and ?a1.0 = demo_a1
      and c = "''B1''" and rc = "(1, 2)" and v = "PInt 42"] listed label
  show ?thesis by simp
qed

text \<open>
  C6: \<open>create_tables\<close> fails with IOError when the file cannot be read; otherwise it hands the
  whole contents of the file to \<open>executescript\<close> on the connection's database, and its
  outcome is that of the execution: DatabaseError when the execution fails with it, no error
  when the execution succeeds.
\<close>

theorem create_tables_outcomes:
  "(fs p = None \<longrightarrow> create_tables ex fs s p = (Some IOError, s)) \<and>
   (\<forall>sql. fs p = Some sql \<longrightarrow>
      create_tables ex fs s p = (fst (ex sql (dbconn s)), s\<lparr>dbconn := snd (ex sql (dbconn s))\<rparr>)) \<and>
   (\<forall>sql db'. fs p = Some sql \<and> ex sql (dbconn s) = (Some DatabaseError, db') \<longrightarrow>
      fst (create_tables ex fs s p) = Some DatabaseError) \<and>
   (\<forall>sql db'. fs p = Some sql \<and> ex sql (dbconn s) = (None, db') \<longrightarrow>
      create_tables ex fs s p = (None, s\<lparr>dbconn := db'\<rparr>))"
  by (simp add: create_tables_def open_read_def split: prod.splits)

theorem create_tables_outcomes_witness:
  "demo_fs ''missing.sql'' = None \<and>
   create_tables demo_executescript demo_fs demo_state ''missing.sql'' = (Some IOError, demo_state) \<and>
   demo_fs ''broken.sql'' = Some ''CREATE TABEL'' \<and>
   fst (create_tables demo_executescript demo_fs demo_state ''broken.sql'') = Some DatabaseError \<and>
   demo_fs ''schema.sql'' = Some ''CREATE TABLE Employees (name);'' \<and>
   create_tables demo_executescript demo_fs demo_state ''schema.sql''
     = (None, demo_state\<lparr>dbconn := [''Employees'' \<mapsto> []]\<rparr>)"
  using create_tables_outcomes [where fs = demo_fs and p = "''missing.sql''"
      and ex = demo_executescript and s = demo_state]
    create_tables_outcomes [where fs = demo_fs and p = "''broken.sql''"
      and ex = demo_executescript and s = demo_state]
    create_tables_outcomes [where fs = demo_fs and p = "''schema.sql''"
      and ex = demo_executescript and s = demo_state]
  by (simp add: demo_fs_def demo_executescript_def demo_state_def)

text \<open>
  C7: for a title that no worksheet has, \<open>update_cell\<close> and \<open>clear_worksheet\<close> both fail with
  NotFoundError and change nothing. For a title that is listed, \<open>clear_worksheet\<close> raises
  nothing, the list of titles is as before (the worksheet is still there), the worksheet found
  under the title has no cell value left, and no other worksheet is changed.
\<close>

theorem missing_title_and_clear:
  "(t \<notin> set (map title (sheet s)) \<longrightarrow>
      update_cell a1 s t c v = (Some NotFoundError, s) \<and>
      clear_worksheet s t = (Some NotFoundError, s)) \<and>
   (t \<in> set (map title (sheet s)) \<longrightarrow>
      fst (clear_worksheet s t) = None \<and>
      map title (sheet (snd (clear_worksheet s t))) = map title (sheet s) \<and>
      (\<exists>h. get_worksheet (sheet (snd (clear_worksheet s t))) t = Inr h \<and>
           cells (sheet (snd (clear_worksheet s t)) ! h) = Map.empty \<and>
           (\<forall>i. i \<noteq> h \<longrightarrow> sheet (snd (clear_worksheet s t)) ! i = sheet s ! i)))"
proof (intro conjI impI)
  assume "t \<notin> set (map title (sheet s))"
  then have missing: "get_worksheet (sheet s) t = Inl NotFoundError"
    by (rule get_worksheet_missing)
  then show "update_cell a1 s t c v = (Some NotFoundError, s)"
    by (simp add: update_cell_def)
  from missing show "clear_worksheet s t = (Some NotFoundError, s)"
    by (simp add: clear_worksheet_def)
next
  assume "t \<in> set (map title (sheet s))"
  then obtain h where h: "get_worksheet (sheet s) t = Inr h" "h < length (sheet s)"
    using get_worksheet_present by blast
  let ?sh' = "(sheet s)[h := clear (sheet s ! h)]"
  from h have run: "clear_worksheet s t = (None, s\<lparr>sheet := ?sh'\<rparr>)"
    by (simp add: clear_worksheet_def)
  then show "fst (clear_worksheet s t) = None" by simp
  have titles: "map title ?sh' = map title (sheet s)"
    using h(2) by (simp add: map_update list_update_same_conv clear_def)
  with run show "map title (sheet (snd (clear_worksheet s t))) = map title (sheet s)" by simp
  from titles have "get_worksheet ?sh' t = Inr h"
    using h(1) get_worksheet_titles by metis
  with run h(2) show "\<exists>h. get_worksheet (sheet (snd (clear_worksheet s t))) t = Inr h \<and>
           cells (sheet (snd (clear_worksheet s t)) ! h) = Map.empty \<and>
           (\<forall>i. i \<noteq> h \<longrightarrow> sheet (snd (clear_worksheet s t)) ! i = sheet s ! i)"
    by (simp add: clear_def)
qed

theorem missing_title_and_clear_witness:
  "''Payroll'' \<notin> set (map title (sheet demo_filled)) \<and>
   update_cell demo_a1 demo_filled ''Payroll'' ''A1'' (PInt 1) = (Some NotFoundError, demo_filled) \<and>
   clear_worksheet demo_filled ''Payroll'' = (Some NotFoundError, demo_filled) \<and>
   ''Employees'' \<in> set (map title (sheet demo_filled)) \<and>
   fst (clear_worksheet demo_filled ''Employees'') = None \<and>
   map title (sheet (snd (clear_worksheet demo_filled ''Employees''))) = [''Employees'', ''Departments''] \<and>
   cell_at (sheet demo_filled ! 0) (1, 1) = PStr ''a'' \<and>
   cell_at (sheet (snd (clear_worksheet demo_filled ''Employees'')) ! 0) (1, 1) = PStr []"
proof -
  have missing: "''Payroll'' \<notin> set (map title (sheet demo_filled))"
    and listed: "''Employees'' \<in> set (map title (sheet demo_filled))"
    and titles: "map title (sheet demo_filled) = [''Employees'', ''Departments'']"
    and before: "cell_at (sheet demo_filled ! 0) (1, 1) = PStr ''a''"
    by (simp_all add: demo_filled_def demo_departments_def cell_at_def)
  have after: "cell_at (sheet (snd (clear_worksheet demo_filled ''Employees'')) ! 0) (1, 1) = PStr []"
    by (simp add: clear_worksheet_def get_worksheet_def clear_def cell_at_def demo_filled_def)
  from missing_title_and_clear [where s = demo_filled and t = "''Payroll''" and ?a1.0 = demo_a1
      and c = "''A1''" and v = "PInt 1"]
    missing_title_and_clear [where s = demo_filled and t = "''Employees''" and ?a1.0 = demo_a1
      and c = "''A1''" and v = "PInt 1"]
    missing listed titles before after
  show ?thesis by simp
qed

text \<open>
  C8: once the worksheet is found and \<open>Worksheet.range\<close> has returned a cell list: when there
  are more values than cells, \<open>update_in_range\<close> raises IndexError in the assignment loop and
  the state is unchanged (no write-back); when there are at most as many values as cells, the
  list written back has the same cells, the first ones carrying the new values in order and
  the remaining ones carrying the values that were fetched.
\<close>

theorem update_in_range_length_mismatch:
  assumes "get_worksheet (sheet s) t = Inr h"
    and "range_cells resolve (sheet s ! h) (range_name a b) = Inr fetched"
  shows "(length fetched < length vs \<longrightarrow>
            update_in_range resolve s t a b vs = (Some IndexError, s)) \<and>
         (length vs \<le> length fetched \<longrightarrow>
            (\<exists>cell_list.
               update_in_range resolve s t a b vs =
                 (None, s\<lparr>sheet := (sheet s)[h := update_cells (sheet s ! h) cell_list]\<rparr>) \<and>
               length cell_list = length fetched \<and>
               (\<forall>j<length fetched. cell_list ! j =
                  (if j < length vs then (fetched ! j)\<lparr>val := vs ! j\<rparr> else fetched ! j))))"
proof (intro conjI impI)
  assume "length fetched < length vs"
  then have "assign_values fetched 0 vs = Inl IndexError"
    by (intro assign_values_overflow) simp_all
  with assms show "update_in_range resolve s t a b vs = (Some IndexError, s)"
    by (simp add: update_in_range_def)
next
  assume "length vs \<le> length fetched"
  then have "0 + length vs \<le> length fetched" by simp
  from assign_values_fits [OF this] obtain cell_list where cl:
    "assign_values fetched 0 vs = Inr cell_list" "length cell_list = length fetched"
    "\<forall>j<length fetched. cell_list ! j =
        (if j < length vs then (fetched ! j)\<lparr>val := vs ! j\<rparr> else fetched ! j)"
    by auto
  from assms cl(1) have "update_in_range resolve s t a b vs =
      (None, s\<lparr>sheet := (sheet s)[h := update_cells (sheet s ! h) cell_list]\<rparr>)"
    by (simp add: update_in_range_def)
  with cl(2,3) show "\<exists>cell_list.
      update_in_range resolve s t a b vs =
        (None, s\<lparr>sheet := (sheet s)[h := update_cells (sheet s ! h) cell_list]\<rparr>) \<and>
      length cell_list = length fetched \<and>
      (\<forall>j<length fetched. cell_list ! j =
         (if j < length vs then (fetched ! j)\<lparr>val := vs ! j\<rparr> else fetched ! j))"
    by blast
qed

theorem update_in_range_length_mismatch_witness:
  "get_worksheet (sheet demo_filled) ''Employees'' = Inr 0 \<and>
   range_cells demo_any_range (sheet demo_filled ! 0) (range_name ''A1'' ''B1'')
     = Inr [\<lparr>row = 1, col = 1, val = PStr ''a''\<rparr>, \<lparr>row = 1, col = 2, val = PStr ''b''\<rparr>] \<and>
   update_in_range demo_any_range demo_filled ''Employees'' ''A1'' ''B1'' [PStr ''x'', PStr ''y'', PStr ''z'']
     = (Some IndexError, demo_filled) \<and>
   fst (update_in_range demo_any_range demo_filled ''Employees'' ''A1'' ''B1'' [PStr ''x'']) = None \<and>
   cell_at (sheet (snd (update_in_range demo_any_range demo_filled ''Employees'' ''A1'' ''B1'' [PStr ''x''])) ! 0) (1, 1)
     = PStr ''x'' \<and>
   cell_at (sheet (snd (update_in_range demo_any_range demo_filled ''Employees'' ''A1'' ''B1'' [PStr ''x''])) ! 0) (1, 2)
     = PStr ''b''"
proof -
  have found: "get_worksheet (sheet demo_filled) ''Employees'' = Inr 0"
    by (simp add: demo_filled_def get_worksheet_def)
  have fetched: "range_cells demo_any_range (sheet demo_filled ! 0) (range_name ''A1'' ''B1'')
     = Inr [\<lparr>row = 1, col = 1, val = PStr ''a''\<rparr>, \<lparr>row = 1, col = 2, val = PStr ''b''\<rparr>]"
    by (simp add: demo_filled_def range_cells_def demo_any_range_def cell_at_def)
  have short: "fst (update_in_range demo_any_range demo_filled ''Employees'' ''A1'' ''B1'' [PStr ''x'']) = None"
    "cell_at (sheet (snd (update_in_range demo_any_range demo_filled ''Employees'' ''A1'' ''B1'' [PStr ''x''])) ! 0) (1, 1)
       = PStr ''x''"
    "cell_at (sheet (snd (update_in_range demo_any_range demo_filled ''Employees'' ''A1'' ''B1'' [PStr ''x''])) ! 0) (1, 2)
       = PStr ''b''"
    by (simp_all add: update_in_range_def get_worksheet_def range_cells_def demo_any_range_def
        update_cells_def cell_at_def demo_filled_def)
  from update_in_range_length_mismatch [OF found fetched, of "[PStr ''x'', PStr ''y'', PStr ''z'']"]
    update_in_range_length_mismatch [OF found fetched, of "[PStr ''x'']"]
    found fetched short
  show ?thesis by simp
qed

text \<open>
  C9: when reading the script file raises an error, \<open>create_tables\<close> raises that error and
  \<open>executescript\<close> is not called: the state, and the database in it, is unchanged, and the
  outcome is the same for every database engine.
\<close>

theorem create_tables_unreadable:
  "open_read fs p = Inl e \<Longrightarrow>
     create_tables ex fs s p = (Some e, s) \<and>
     dbconn (snd (create_tables ex fs s p)) = dbconn s \<and>
     (\<forall>ex'. create_tables ex' fs s p = create_tables ex fs s p)"
  by (simp add: create_tables_def)

theorem create_tables_unreadable_witness:
  "open_read demo_fs ''missing.sql'' = Inl IOError \<and>
   create_tables demo_executescript demo_fs demo_state ''missing.sql'' = (Some IOError, demo_state) \<and>
   dbconn (snd (create_tables demo_executescript demo_fs demo_state ''missing.sql'')) = Map.empty"
proof -
  have unreadable: "open_read demo_fs ''missing.sql'' = Inl IOError"
    by (simp add: open_read_def demo_fs_def)
  from create_tables_unreadable [OF unreadable, of demo_executescript demo_state] unreadable
  show ?thesis by (simp add: demo_state_def)
qed

text \<open>
  C10: \<open>extract_data\<close> only appends. Whatever rows a table holds before the call, the table
  holds afterwards the same rows, in the same order, followed by the rows the call added
  (possibly none); this is so for every table, also when the call fails part-way.
\<close>

theorem extract_data_keeps_rows:
  "dbconn s t = Some rows \<Longrightarrow> \<exists>extra. dbconn (snd (extract_data g a s)) t = Some (rows @ extra)"
proof -
  assume "dbconn s t = Some rows"
  then have "dbconn (log_start s) t = Some rows" by simp
  then have "\<exists>extra. dbconn (snd (extract_loop g a (sheet s) (log_start s))) t = Some (rows @ extra)"
    by (rule extract_loop_append_only)
  then show ?thesis by (simp add: extract_data_dbconn)
qed

theorem extract_data_keeps_rows_witness:
  "dbconn demo_loaded ''Employees'' = Some [[(''name'', PStr ''Zed'')]] \<and>
   (\<exists>extra. dbconn (snd (extract_data demo_records accept_all demo_loaded)) ''Employees''
      = Some ([[(''name'', PStr ''Zed'')]] @ extra)) \<and>
   dbconn (snd (extract_data demo_records accept_all demo_loaded)) ''Employees''
      = Some ([(''name'', PStr ''Zed'')] # demo_rows)"
proof -
  have before: "dbconn demo_loaded ''Employees'' = Some [[(''name'', PStr ''Zed'')]]"
    by (simp add: demo_defs)
  have after: "dbconn (snd (extract_data demo_records accept_all demo_loaded)) ''Employees''
      = Some ([(''name'', PStr ''Zed'')] # demo_rows)"
    by (simp add: demo_defs run_defs)
  from extract_data_keeps_rows [OF before, of demo_records accept_all] before after
  show ?thesis by simp
qed

end
